theory Spec2Isabelle
  imports Complex_Main "HOL-Library.Sublist"
begin

unbundle bit_operations_syntax

section \<open>Data model of \<^verbatim>\<open>pdftocgen/filter.py\<close>\<close>

text \<open>
  The module works on plain Python dictionaries. A dictionary with a fixed set of optional
  keys is a record whose fields are options: \<open>None\<close> is a missing key. Python integers are
  \<open>int\<close>. The numbers that spans and configurations hold (sizes, tolerances, coordinates)
  are finite floats and are the real numbers they denote; the float arithmetic of
  \<^verbatim>\<open>admits_float\<close>, which is defined on every float, is modelled separately below.
  A raised exception is a value of type \<open>error\<close> on the left of a sum; \<open>ReError\<close> is the
  exception \<^verbatim>\<open>re.error\<close> of the regular expression library.
\<close>

datatype error = ValueError string | TypeError | ReError

text \<open>\<^verbatim>\<open>d.get(key, default)\<close> on an optional field.\<close>

definition dget :: "'v option \<Rightarrow> 'v \<Rightarrow> 'v" where
  "dget field dflt = (case field of None \<Rightarrow> dflt | Some v \<Rightarrow> v)"

text \<open>
  A compiled regular expression (\<^verbatim>\<open>re.Pattern\<close>) is used through its \<^verbatim>\<open>search\<close> method only,
  so it is the predicate "search finds a match in this string". The regular expression
  engine \<^verbatim>\<open>re.compile\<close> is a library outside this module: it is a parameter of the
  constructors, of type \<open>string \<Rightarrow> Pattern option\<close>, where \<open>None\<close> stands for the
  exception \<^verbatim>\<open>re.error\<close> that the engine raises on a malformed pattern.
\<close>

type_synonym Pattern = "string \<Rightarrow> bool"

text \<open>The span dictionary produced by the document parser.\<close>

record span =
  s_text :: "string option"
  s_font :: "string option"
  s_size :: "real option"
  s_color :: "int option"
  s_flags :: "int option"
  s_bbox :: "(real \<times> real \<times> real \<times> real) option"

record line =
  l_spans :: "span list option"

record block =
  b_lines :: "line list option"

record page =
  p_blocks :: "block list option"

text \<open>The \<^verbatim>\<open>font\<close> and \<^verbatim>\<open>bbox\<close> sub-dictionaries and the filter dictionary of the configuration.\<close>

record font_dict =
  fd_name :: "string option"
  fd_size :: "real option"
  fd_size_tolerance :: "real option"
  fd_color :: "int option"
  fd_superscript :: "bool option"
  fd_italic :: "bool option"
  fd_serif :: "bool option"
  fd_monospace :: "bool option"
  fd_bold :: "bool option"

record bbox_dict =
  bd_left :: "real option"
  bd_top :: "real option"
  bd_right :: "real option"
  bd_bottom :: "real option"
  bd_tolerance :: "real option"

record fltr_dict =
  fl_level :: "int option"
  fl_font :: "font_dict option"
  fl_bbox :: "bbox_dict option"

definition empty_font_dict :: font_dict where
  "empty_font_dict = \<lparr>fd_name = None, fd_size = None, fd_size_tolerance = None,
     fd_color = None, fd_superscript = None, fd_italic = None, fd_serif = None,
     fd_monospace = None, fd_bold = None\<rparr>"

definition empty_bbox_dict :: bbox_dict where
  "empty_bbox_dict = \<lparr>bd_left = None, bd_top = None, bd_right = None, bd_bottom = None,
     bd_tolerance = None\<rparr>"

text \<open>The attributes of the three filter classes.\<close>

record FontFilter =
  ff_name :: Pattern
  ff_size :: "real option"
  ff_size_tolerance :: real
  ff_color :: "int option"
  ff_flags :: int
  ff_ign_mask :: int

record BoundingBoxFilter =
  bf_left :: "real option"
  bf_top :: "real option"
  bf_right :: "real option"
  bf_bottom :: "real option"
  bf_tolerance :: real

record ToCFilter =
  tf_level :: int
  tf_font :: FontFilter
  tf_bbox :: BoundingBoxFilter

text \<open>
  Modelled from the spec: \<^verbatim>\<open>ToCEntry\<close> is declared in the module \<^verbatim>\<open>fitzutils\<close>, which is not
  among the sources. The specification gives its four fields, in the order in which
  \<^verbatim>\<open>extract_toc\<close> passes them to the constructor: level, title, page number, vertical
  position.
\<close>

datatype ToCEntry = ToCEntry (level: int) (title: string) (pagenum: int) (vpos: real)

section \<open>Float matching\<close>

text \<open>
  A Python float is an IEEE double: a finite number, an infinity or NaN. Signed zeros
  are not distinguished (they compare equal).
\<close>

datatype pyfloat = Finite real | PInf | NInf | NaN

text \<open>
  Rounding of a real result to the nearest double, ties to even: the unit in the last
  place is \<open>2 ^ (e - 52)\<close> for the binary exponent \<open>e\<close> of the number, which is at least
  \<open>-1022\<close> (below it the doubles are subnormal); a result that rounds to \<open>2 ^ 1024\<close> or
  beyond overflows to an infinity.
\<close>

definition round_half_even :: "real \<Rightarrow> int" where
  "round_half_even q =
     (let n = \<lfloor>q\<rfloor>
      in if q - of_int n < 1 / 2 then n
         else if 1 / 2 < q - of_int n then n + 1
         else if even n then n else n + 1)"

definition fl_round :: "real \<Rightarrow> pyfloat" where
  "fl_round r =
     (if r = 0 then Finite 0
      else let e = max \<lfloor>log 2 \<bar>r\<bar>\<rfloor> (- 1022);
               u = 2 powr (of_int e - 52);
               v = of_int (round_half_even (r / u)) * u
           in if 2 ^ 1024 \<le> \<bar>v\<bar> then (if 0 < r then PInf else NInf) else Finite v)"

text \<open>Subtraction, \<^verbatim>\<open>abs\<close> and \<^verbatim>\<open><=\<close> on floats.\<close>

fun fsub :: "pyfloat \<Rightarrow> pyfloat \<Rightarrow> pyfloat" where
  "fsub NaN y = NaN"
| "fsub x NaN = NaN"
| "fsub PInf PInf = NaN"
| "fsub NInf NInf = NaN"
| "fsub PInf y = PInf"
| "fsub NInf y = NInf"
| "fsub (Finite a) PInf = NInf"
| "fsub (Finite a) NInf = PInf"
| "fsub (Finite a) (Finite b) = fl_round (a - b)"

fun fabs :: "pyfloat \<Rightarrow> pyfloat" where
  "fabs (Finite a) = Finite \<bar>a\<bar>"
| "fabs PInf = PInf"
| "fabs NInf = PInf"
| "fabs NaN = NaN"

fun fle :: "pyfloat \<Rightarrow> pyfloat \<Rightarrow> bool" where
  "fle NaN y = False"
| "fle x NaN = False"
| "fle NInf y = True"
| "fle x PInf = True"
| "fle PInf y = False"
| "fle x NInf = False"
| "fle (Finite a) (Finite b) = (a \<le> b)"

text \<open>The double that the literal \<^verbatim>\<open>1e-5\<close> denotes.\<close>

definition DEF_TOLERANCE :: real where
  "DEF_TOLERANCE = 5902958103587057 / 2 ^ 69"

definition admits_float :: "pyfloat option \<Rightarrow> pyfloat option \<Rightarrow> pyfloat \<Rightarrow> bool" where
  "admits_float expect actual tolerance =
     (case expect of
        None \<Rightarrow> True
      | Some e \<Rightarrow> (case actual of None \<Rightarrow> False | Some a \<Rightarrow> fle (fabs (fsub e a)) tolerance))"

section \<open>Font filter\<close>

text \<open>
  \<^verbatim>\<open>FontFilter.__init__\<close>. Its first statement compiles the name pattern and may raise
  \<^verbatim>\<open>re.error\<close>; the assignments that follow cannot fail. A Python bool multiplies as 0 or
  1; \<^verbatim>\<open>*\<close> binds tighter than the bitwise or.
\<close>

definition FontFilter_init :: "(string \<Rightarrow> Pattern option) \<Rightarrow> font_dict \<Rightarrow> error + FontFilter" where
  "FontFilter_init re_compile d =
     (case re_compile (dget (fd_name d) '''') of
        None \<Rightarrow> Inl ReError
      | Some pat \<Rightarrow>
          Inr \<lparr>ff_name = pat,
               ff_size = fd_size d,
               ff_size_tolerance = dget (fd_size_tolerance d) DEF_TOLERANCE,
               ff_color = fd_color d,
               ff_flags = (1 * of_bool (dget (fd_superscript d) False) OR
                           2 * of_bool (dget (fd_italic d) False) OR
                           4 * of_bool (dget (fd_serif d) False) OR
                           8 * of_bool (dget (fd_monospace d) False) OR
                           16 * of_bool (dget (fd_bold d) False)),
               ff_ign_mask = (1 * of_bool (fd_superscript d \<noteq> None) OR
                              2 * of_bool (fd_italic d \<noteq> None) OR
                              4 * of_bool (fd_serif d \<noteq> None) OR
                              8 * of_bool (fd_monospace d \<noteq> None) OR
                              16 * of_bool (fd_bold d \<noteq> None))\<rparr>)"

text \<open>
  The last two lines of \<^verbatim>\<open>FontFilter.admits\<close>, the style-flag step:
  \<^verbatim>\<open>flags = spn.get('flags', ~self.flags); return not (flags ^ self.flags) & self.ign_mask\<close>.
  \<^verbatim>\<open>not\<close> binds weaker than the bitwise operators, so the result is true exactly when the
  masked difference is zero.
\<close>

definition admits_flags :: "FontFilter \<Rightarrow> span \<Rightarrow> bool" where
  "admits_flags ff spn =
     (let flags = dget (s_flags spn) (NOT (ff_flags ff))
      in (flags XOR ff_flags ff) AND ff_ign_mask ff = 0)"

definition FontFilter_admits :: "FontFilter \<Rightarrow> span \<Rightarrow> bool" where
  "FontFilter_admits ff spn =
     (if \<not> ff_name ff (dget (s_font spn) '''') then False
      else if ff_color ff \<noteq> None \<and> ff_color ff \<noteq> s_color spn then False
      else if \<not> admits_float (map_option Finite (ff_size ff)) (map_option Finite (s_size spn))
                  (Finite (ff_size_tolerance ff)) then False
      else admits_flags ff spn)"

section \<open>Bounding box filter\<close>

definition BoundingBoxFilter_init :: "bbox_dict \<Rightarrow> BoundingBoxFilter" where
  "BoundingBoxFilter_init d =
     \<lparr>bf_left = bd_left d, bf_top = bd_top d, bf_right = bd_right d, bf_bottom = bd_bottom d,
      bf_tolerance = dget (bd_tolerance d) DEF_TOLERANCE\<rparr>"

definition BoundingBoxFilter_admits :: "BoundingBoxFilter \<Rightarrow> span \<Rightarrow> bool" where
  "BoundingBoxFilter_admits bf spn =
     (case (case s_bbox spn of
              None \<Rightarrow> (None, None, None, None)
            | Some (l, t, r, b) \<Rightarrow> (Some (Finite l), Some (Finite t), Some (Finite r), Some (Finite b))) of
        (b0, b1, b2, b3) \<Rightarrow>
          admits_float (map_option Finite (bf_left bf)) b0 (Finite (bf_tolerance bf)) \<and>
          admits_float (map_option Finite (bf_top bf)) b1 (Finite (bf_tolerance bf)) \<and>
          admits_float (map_option Finite (bf_right bf)) b2 (Finite (bf_tolerance bf)) \<and>
          admits_float (map_option Finite (bf_bottom bf)) b3 (Finite (bf_tolerance bf)))"

section \<open>The filter of one heading level\<close>

definition level_not_set :: string where
  "level_not_set = ''filter'' @ [CHR 0x27] @ ''s '' @ [CHR 0x27] @ ''level'' @ [CHR 0x27] @
     '' is not set''"

definition level_too_small :: string where
  "level_too_small = ''filter'' @ [CHR 0x27] @ ''s '' @ [CHR 0x27] @ ''level'' @ [CHR 0x27] @
     '' must be >= 1''"

text \<open>
  \<^verbatim>\<open>ToCFilter.__init__\<close>: the two checks of the level come first; the construction of the
  font filter follows and passes on the \<^verbatim>\<open>re.error\<close> of a malformed name pattern.
\<close>

definition ToCFilter_init :: "(string \<Rightarrow> Pattern option) \<Rightarrow> fltr_dict \<Rightarrow> error + ToCFilter" where
  "ToCFilter_init re_compile d =
     (case fl_level d of
        None \<Rightarrow> Inl (ValueError level_not_set)
      | Some lv \<Rightarrow>
          if lv < 1 then Inl (ValueError level_too_small)
          else (case FontFilter_init re_compile (dget (fl_font d) empty_font_dict) of
                  Inl e \<Rightarrow> Inl e
                | Inr font \<Rightarrow>
                    Inr \<lparr>tf_level = lv, tf_font = font,
                         tf_bbox = BoundingBoxFilter_init (dget (fl_bbox d) empty_bbox_dict)\<rparr>))"

definition ToCFilter_admits :: "ToCFilter \<Rightarrow> span \<Rightarrow> bool" where
  "ToCFilter_admits f spn = (FontFilter_admits (tf_font f) spn \<and> BoundingBoxFilter_admits (tf_bbox f) spn)"

text \<open>
  \<^verbatim>\<open>_extract_spans\<close>: the text is \<^verbatim>\<open>spn.get('text', None)\<close>, so it stays optional; the
  position is \<^verbatim>\<open>spn.get('bbox', (0, 0))[1]\<close>.
\<close>

definition extract_spans :: "ToCFilter \<Rightarrow> span list \<Rightarrow> (string option \<times> real) option list" where
  "extract_spans f spns =
     map (\<lambda>spn. if ToCFilter_admits f spn
                 then Some (s_text spn, (case s_bbox spn of None \<Rightarrow> 0 | Some (l, t, r, b) \<Rightarrow> t))
                 else None) spns"

definition extract_lines :: "ToCFilter \<Rightarrow> line list \<Rightarrow> (string option \<times> real) option list" where
  "extract_lines f lines = concat (map (\<lambda>ln. extract_spans f (dget (l_spans ln) [])) lines)"

section \<open>Merging runs\<close>

text \<open>\<^verbatim>\<open>itertools.groupby\<close>: consecutive elements with equal keys form one group.\<close>

function groupby :: "'a list \<Rightarrow> ('a \<Rightarrow> 'k) \<Rightarrow> ('k \<times> 'a list) list" where
  "groupby [] key = []"
| "groupby (x # xs) key =
     (key x, x # takeWhile (\<lambda>y. key y = key x) xs) #
       groupby (dropWhile (\<lambda>y. key y = key x) xs) key"
  by pat_completeness auto
termination
  by (relation "measure (\<lambda>(xs, key). length xs)") (auto simp: length_dropWhile_le less_Suc_eq_le)

text \<open>
  \<^verbatim>\<open>zip(*grp)\<close> unpacked into two tuples: every element of the group must be a pair
  (\<^verbatim>\<open>None\<close> cannot be unpacked), and the group must not be empty.
\<close>

definition unzip_group :: "('a \<times> 'b) option list \<Rightarrow> error + ('a list \<times> 'b list)" where
  "unzip_group grp =
     (case those grp of
        None \<Rightarrow> Inl TypeError
      | Some ps \<Rightarrow> if ps = [] then Inl (ValueError ''not enough values to unpack'')
                   else Inr (map fst ps, map snd ps))"

text \<open>\<^verbatim>\<open>sep.join(strs)\<close>: raises \<^verbatim>\<open>TypeError\<close> when an item is not a string.\<close>

fun join :: "string \<Rightarrow> string list \<Rightarrow> string" where
  "join sep [] = []"
| "join sep [s] = s"
| "join sep (s # t # ss) = s @ sep @ join sep (t # ss)"

definition str_join :: "string \<Rightarrow> string option list \<Rightarrow> error + string" where
  "str_join sep strs =
     (case those strs of None \<Rightarrow> Inl TypeError | Some ss \<Rightarrow> Inr (join sep ss))"

text \<open>
  The builtin \<^verbatim>\<open>min\<close> of a sequence: it keeps the first element and replaces it by a
  later one that is strictly smaller; an empty sequence raises \<^verbatim>\<open>ValueError\<close>.
\<close>

definition py_min :: "real list \<Rightarrow> error + real" where
  "py_min vs =
     (case vs of
        [] \<Rightarrow> Inl (ValueError ''min() arg is an empty sequence'')
      | v # rest \<Rightarrow> Inr (fold (\<lambda>x m. if x < m then x else m) rest v))"

text \<open>The loop of \<^verbatim>\<open>merge_optional\<close> over the groups, with the list \<^verbatim>\<open>result\<close> it appends to.\<close>

fun merge_loop ::
  "string \<Rightarrow> (bool \<times> (string option \<times> real) option list) list \<Rightarrow> (string \<times> real) list \<Rightarrow>
     error + (string \<times> real) list" where
  "merge_loop sep [] result = Inr result"
| "merge_loop sep ((nothing, grp) # gs) result =
     (if \<not> nothing then
        (case unzip_group grp of
           Inl e \<Rightarrow> Inl e
         | Inr (strs, vtops) \<Rightarrow>
             (case str_join sep strs of
                Inl e \<Rightarrow> Inl e
              | Inr s \<Rightarrow>
                  (case py_min vtops of
                     Inl e \<Rightarrow> Inl e
                   | Inr m \<Rightarrow> merge_loop sep gs (result @ [(s, m)]))))
      else merge_loop sep gs result)"

definition merge_optional ::
  "(string option \<times> real) option list \<Rightarrow> string \<Rightarrow> error + (string \<times> real) list" where
  "merge_optional ls sep = merge_loop sep (groupby ls (\<lambda>x. x = None)) []"

section \<open>Extraction\<close>

text \<open>The inner loop of \<^verbatim>\<open>extract_toc\<close> over the blocks of a page, extending \<^verbatim>\<open>entries\<close>.\<close>

fun blocks_loop :: "ToCFilter \<Rightarrow> block list \<Rightarrow> (string \<times> real) list \<Rightarrow> error + (string \<times> real) list" where
  "blocks_loop f [] entries = Inr entries"
| "blocks_loop f (blk # blks) entries =
     (case merge_optional (extract_lines f (dget (b_lines blk) [])) '' '' of
        Inl e \<Rightarrow> Inl e
      | Inr merged \<Rightarrow> blocks_loop f blks (entries @ merged))"

text \<open>The outer loop over \<^verbatim>\<open>enumerate(pages, 1)\<close>, extending \<^verbatim>\<open>result\<close>.\<close>

fun pages_loop :: "ToCFilter \<Rightarrow> page list \<Rightarrow> int \<Rightarrow> ToCEntry list \<Rightarrow> error + ToCEntry list" where
  "pages_loop f [] n result = Inr result"
| "pages_loop f (pg # pgs) n result =
     (case blocks_loop f (dget (p_blocks pg) []) [] of
        Inl e \<Rightarrow> Inl e
      | Inr entries \<Rightarrow>
          pages_loop f pgs (n + 1)
            (result @ map (\<lambda>(title, vpos). ToCEntry (tf_level f) title n vpos) entries))"

definition extract_toc :: "page list \<Rightarrow> ToCFilter \<Rightarrow> error + ToCEntry list" where
  "extract_toc pages fltr = pages_loop fltr pages 1 []"

text \<open>
  A stand-in for \<^verbatim>\<open>re.compile\<close> wherever a statement is evaluated at a concrete filter. It
  agrees with the engine on the two kinds of pattern that the examples use: a pattern
  without metacharacters is searched for as a substring, and a pattern that begins with
  the quantifier \<^verbatim>\<open>*\<close> is malformed (\<^verbatim>\<open>re.error\<close>: nothing to repeat).
\<close>

definition literal_compile :: "string \<Rightarrow> Pattern option" where
  "literal_compile pat =
     (case pat of
        [] \<Rightarrow> Some (\<lambda>s. sublist pat s)
      | c # cs \<Rightarrow> if c = CHR ''*'' then None else Some (\<lambda>s. sublist pat s))"

section \<open>Specification-side notions and example inputs\<close>

text \<open>
  The ternary comparison of one style flag, as the comment in \<^verbatim>\<open>FontFilter\<close> tabulates it:
  a flag that the configuration does not set never differs; a flag that it sets must equal
  bit \<open>i\<close> of the span's flags.
\<close>

definition flag_matches :: "bool option \<Rightarrow> int \<Rightarrow> nat \<Rightarrow> bool" where
  "flag_matches c flags i = (case c of None \<Rightarrow> True | Some b \<Rightarrow> bit flags i = b)"

text \<open>The two font configurations of the masked-flag law, and a span with no key at all.\<close>

definition bold_only :: font_dict where
  "bold_only = empty_font_dict\<lparr>fd_bold := Some True\<rparr>"

definition bold_not_italic :: font_dict where
  "bold_not_italic = empty_font_dict\<lparr>fd_bold := Some True, fd_italic := Some False\<rparr>"

definition bare_span :: span where
  "bare_span = \<lparr>s_text = None, s_font = None, s_size = None, s_color = None, s_flags = None,
     s_bbox = None\<rparr>"

text \<open>
  The run partition of the merging step, in the words of the specification: a state
  machine reads the sequence once, \<open>cur\<close> being the value run under construction; a
  marker closes the run if there is one, a present pair extends it. \<open>value_runs\<close> lists
  the maximal contiguous runs of present pairs, in order.
\<close>

fun runs_from :: "'a list \<Rightarrow> 'a option list \<Rightarrow> 'a list list" where
  "runs_from cur [] = (if cur = [] then [] else [cur])"
| "runs_from cur (None # xs) = (if cur = [] then runs_from [] xs else cur # runs_from [] xs)"
| "runs_from cur (Some x # xs) = runs_from (cur @ [x]) xs"

definition value_runs :: "'a option list \<Rightarrow> 'a list list" where
  "value_runs ls = runs_from [] ls"

text \<open>
  What the specification asks of one value run: the texts joined by the separator, and the
  least vertical position. \<open>merge_spec\<close> is one such pair per value run.
\<close>

definition merge_run :: "string \<Rightarrow> (string \<times> real) list \<Rightarrow> string \<times> real" where
  "merge_run sep run = (join sep (map fst run), Min (set (map snd run)))"

definition merge_spec :: "string \<Rightarrow> (string \<times> real) option list \<Rightarrow> (string \<times> real) list" where
  "merge_spec sep ls = map (merge_run sep) (value_runs ls)"

text \<open>
  A pair as \<^verbatim>\<open>merge_optional\<close> is typed to receive it (its text a string) seen as the pair the
  extraction produces (its text possibly \<^verbatim>\<open>None\<close>).
\<close>

definition with_text :: "(string \<times> real) option \<Rightarrow> (string option \<times> real) option" where
  "with_text x = map_option (\<lambda>(t, v). (Some t, v)) x"

text \<open>
  The extraction as the specification describes it, to be compared with the code: a
  missing text is the empty string, a missing bounding box the position 0; lines are
  flattened in order; each block is merged on its own; each merged pair becomes an entry
  with the level of the filter and the page number; pages are numbered from 1 in the
  order of the list, and the entries are concatenated in page order, then block order.
\<close>

definition top_of :: "span \<Rightarrow> real" where
  "top_of spn = (case s_bbox spn of None \<Rightarrow> 0 | Some (l, t, r, b) \<Rightarrow> t)"

definition spec_spans :: "ToCFilter \<Rightarrow> span list \<Rightarrow> (string \<times> real) option list" where
  "spec_spans f spns =
     map (\<lambda>spn. if ToCFilter_admits f spn then Some (dget (s_text spn) '''', top_of spn) else None) spns"

definition spec_lines :: "ToCFilter \<Rightarrow> line list \<Rightarrow> (string \<times> real) option list" where
  "spec_lines f lines = concat (map (\<lambda>ln. spec_spans f (dget (l_spans ln) [])) lines)"

definition spec_block :: "ToCFilter \<Rightarrow> block \<Rightarrow> (string \<times> real) list" where
  "spec_block f blk = merge_spec '' '' (spec_lines f (dget (b_lines blk) []))"

definition spec_page :: "ToCFilter \<Rightarrow> int \<Rightarrow> page \<Rightarrow> ToCEntry list" where
  "spec_page f n pg =
     map (\<lambda>(t, v). ToCEntry (tf_level f) t n v) (concat (map (spec_block f) (dget (p_blocks pg) [])))"

definition spec_toc :: "ToCFilter \<Rightarrow> page list \<Rightarrow> ToCEntry list" where
  "spec_toc f pages = concat (map (\<lambda>(n, pg). spec_page f (int n) pg) (enumerate 1 pages))"

text \<open>Every admitted span of the pages carries its \<open>text\<close> key.\<close>

definition span_has_text :: "ToCFilter \<Rightarrow> span \<Rightarrow> bool" where
  "span_has_text f spn = (if ToCFilter_admits f spn then s_text spn \<noteq> None else True)"

definition block_has_text :: "ToCFilter \<Rightarrow> block \<Rightarrow> bool" where
  "block_has_text f blk =
     list_all (\<lambda>ln. list_all (span_has_text f) (dget (l_spans ln) [])) (dget (b_lines blk) [])"

definition pages_have_text :: "ToCFilter \<Rightarrow> page list \<Rightarrow> bool" where
  "pages_have_text f pages =
     list_all (\<lambda>pg. list_all (block_has_text f) (dget (p_blocks pg) [])) pages"

text \<open>
  The filter and the page of the end-to-end scenario. The keys that the scenario leaves
  open (size, colour) are those of the arbitrary spans \<open>a\<close>, \<open>b\<close> and \<open>c\<close>.
\<close>

definition scenario_filter :: fltr_dict where
  "scenario_filter =
     \<lparr>fl_level = Some 1,
      fl_font = Some (empty_font_dict\<lparr>fd_name := Some ''Bold'', fd_bold := Some True\<rparr>),
      fl_bbox = Some empty_bbox_dict\<rparr>"

definition scenario_page :: "span \<Rightarrow> span \<Rightarrow> span \<Rightarrow> page" where
  "scenario_page a b c =
     \<lparr>p_blocks = Some [\<lparr>b_lines = Some
        [\<lparr>l_spans = Some
            [a\<lparr>s_text := Some ''Chapter 1'', s_font := Some ''Bold-Font'', s_flags := Some 16,
               s_bbox := Some (0, 10, 100, 20)\<rparr>,
             b\<lparr>s_text := Some ''footnote'', s_font := Some ''Regular'', s_flags := Some 0,
               s_bbox := Some (0, 50, 50, 60)\<rparr>]\<rparr>,
         \<lparr>l_spans = Some
            [c\<lparr>s_text := Some ''Intro'', s_font := Some ''Bold-Font'', s_flags := Some 16,
               s_bbox := Some (0, 11, 100, 21)\<rparr>]\<rparr>]\<rparr>]\<rparr>"

text \<open>
  Further example inputs: the filter that the configuration of level 1 with empty
  \<open>font\<close> and \<open>bbox\<close> dictionaries gives, a span with a text and a bounding box, a document of two pages whose
  second page has two blocks, and a page made of a single line.
\<close>

definition plain_filter :: ToCFilter where
  "plain_filter =
     \<lparr>tf_level = 1,
      tf_font = \<lparr>ff_name = (\<lambda>s. sublist '''' s), ff_size = None,
                 ff_size_tolerance = DEF_TOLERANCE, ff_color = None, ff_flags = 0,
                 ff_ign_mask = 0\<rparr>,
      tf_bbox = BoundingBoxFilter_init empty_bbox_dict\<rparr>"


definition text_span :: "string \<Rightarrow> real \<Rightarrow> span" where
  "text_span t y = bare_span\<lparr>s_text := Some t, s_bbox := Some (0, y, 100, y + 10)\<rparr>"

definition two_block_pages :: "page list" where
  "two_block_pages =
     [\<lparr>p_blocks = None\<rparr>,
      \<lparr>p_blocks = Some
         [\<lparr>b_lines = Some [\<lparr>l_spans = Some [text_span ''A'' 5]\<rparr>, \<lparr>l_spans = Some [text_span ''B'' 3]\<rparr>]\<rparr>,
          \<lparr>b_lines = Some [\<lparr>l_spans = Some [text_span ''C'' 7]\<rparr>]\<rparr>]\<rparr>]"

definition one_line_page :: "span list \<Rightarrow> page" where
  "one_line_page spns = \<lparr>p_blocks = Some [\<lparr>b_lines = Some [\<lparr>l_spans = Some spns\<rparr>]\<rparr>]\<rparr>"

text \<open>A non-empty run of admitted spans that have a text but no bounding box.\<close>

definition no_bbox_run :: "ToCFilter \<Rightarrow> span list \<Rightarrow> bool" where
  "no_bbox_run f spns =
     (spns \<noteq> [] \<and>
      list_all (\<lambda>s. ToCFilter_admits f s \<and> s_bbox s = None \<and> s_text s \<noteq> None) spns)"

section \<open>Float matching: properties\<close>

lemma fl_round_zero: "fl_round 0 = Finite 0"
  by (simp add: fl_round_def)

lemma fl_round_near_one: "fl_round (1 + 1 / 2 ^ 60) = Finite 1"
proof -
  let ?r = "1 + 1 / 2 ^ 60 :: real"
  have l0: "0 \<le> log 2 ?r"
    by (subst zero_le_log_cancel_iff) simp_all
  have "log 2 ?r < log 2 2"
    by (subst log_less_cancel_iff) simp_all
  then have l1: "log 2 ?r < 1" by simp
  have fl: "\<lfloor>log 2 \<bar>?r\<bar>\<rfloor> = 0"
    using l0 l1 by (simp add: floor_eq_iff)
  have u: "(2::real) powr (of_int (max 0 (- 1022)) - 52) = 1 / 2 ^ 52"
    by (simp add: powr_minus_divide)
  have q: "?r / (1 / 2 ^ 52) = 2 ^ 52 + 1 / 256"
    by simp
  have f: "\<lfloor>2 ^ 52 + 1 / 256 :: real\<rfloor> = 2 ^ 52"
    by (simp add: floor_eq_iff)
  have n: "round_half_even (2 ^ 52 + 1 / 256) = 2 ^ 52"
    by (simp add: round_half_even_def f Let_def)
  show ?thesis
    unfolding fl_round_def fl Let_def u q n by simp
qed

lemma admits_float_Finite:
  "admits_float (map_option Finite e) (map_option Finite a) (Finite t) =
     (case e of
        None \<Rightarrow> True
      | Some x \<Rightarrow> (case a of None \<Rightarrow> False | Some y \<Rightarrow> fle (fabs (fl_round (x - y))) (Finite t)))"
  by (simp add: admits_float_def split: option.splits)

lemma admits_float_None: "admits_float None a t"
  by (simp add: admits_float_def)

text \<open>
  Claim C7, as amended. \<^verbatim>\<open>admits_float\<close> is true exactly when the expected value is absent,
  or the actual value is present and the float comparison \<^verbatim>\<open>abs(expect - actual) <= tolerance\<close>
  holds, the difference being the rounded float difference. Hence a finite value matches
  itself under every tolerance \<open>t \<ge> 0\<close>, and an absent expectation admits every actual
  value, present or not, under every tolerance.
\<close>

theorem admits_float_spec:
  "(admits_float expect actual tol \<longleftrightarrow>
      (expect = None \<or>
       (\<exists>e a. expect = Some e \<and> actual = Some a \<and> fle (fabs (fsub e a)) tol))) \<and>
   (fle (Finite 0) t \<longrightarrow> admits_float (Some (Finite a)) (Some (Finite a)) t) \<and>
   admits_float None x t'"
  by (simp add: admits_float_def fl_round_zero split: option.splits)

theorem admits_float_spec_witness:
  "fle (Finite 0) (Finite (1 / 2)) \<and>
   admits_float (Some (Finite 3)) (Some (Finite 3)) (Finite (1 / 2)) \<and>
   admits_float (Some (Finite 3)) (Some (Finite 3)) PInf \<and>
   admits_float None (Some NaN) NaN \<and>
   \<not> admits_float (Some (Finite 12)) None (Finite (1 / 2))"
  using admits_float_spec [of "Some (Finite 12)" None "Finite (1 / 2)" "Finite (1 / 2)" 3
      "Some NaN" NaN]
    admits_float_spec [of "Some (Finite 12)" None "Finite (1 / 2)" PInf 3 "Some NaN" NaN]
  by simp

text \<open>
  Claim C7 as stated fails. An infinity and NaN do not match themselves under any
  tolerance, since their difference with themselves is NaN, which compares false. And
  the comparison is made on the rounded difference: the values \<open>1\<close> and \<open>- 2 ^ -60\<close>
  match under the tolerance \<open>1\<close>, although the exact distance between them exceeds 1.
\<close>

theorem admits_float_spec_counterexample:
  "fle (Finite 0) (Finite 0) \<and>
   \<not> admits_float (Some PInf) (Some PInf) (Finite 0) \<and>
   \<not> admits_float (Some NInf) (Some NInf) PInf \<and>
   \<not> admits_float (Some NaN) (Some NaN) PInf \<and>
   admits_float (Some (Finite 1)) (Some (Finite (- (1 / 2 ^ 60)))) (Finite 1) \<and>
   \<not> \<bar>1 - (- (1 / 2 ^ 60))\<bar> \<le> (1 :: real)"
proof -
  have "(1::real) - (- (1 / 2 ^ 60)) = 1 + 1 / 2 ^ 60"
    by simp
  then have "fsub (Finite 1) (Finite (- (1 / 2 ^ 60))) = Finite 1"
    by (simp only: fsub.simps fl_round_near_one)
  then have r: "admits_float (Some (Finite 1)) (Some (Finite (- (1 / 2 ^ 60)))) (Finite 1)"
    by (simp only: admits_float_def option.case fabs.simps fle.simps abs_one order_refl)
  have i: "\<not> admits_float (Some PInf) (Some PInf) (Finite 0)"
    "\<not> admits_float (Some NInf) (Some NInf) PInf"
    "\<not> admits_float (Some NaN) (Some NaN) PInf"
    by (simp_all add: admits_float_def)
  have e: "\<not> \<bar>1 - (- (1 / 2 ^ 60))\<bar> \<le> (1 :: real)"
    by simp
  from r i e show ?thesis by simp
qed

section \<open>Style flags: the packed comparison\<close>

lemma bit_packed_flags:
  "bit (1 * of_bool a OR 2 * of_bool b OR 4 * of_bool c OR 8 * of_bool d OR 16 * of_bool e :: int) n
     \<longleftrightarrow> (n = 0 \<and> a) \<or> (n = 1 \<and> b) \<or> (n = 2 \<and> c) \<or> (n = 3 \<and> d) \<or> (n = 4 \<and> e)"
proof -
  have p: "1 * of_bool a = push_bit 0 (of_bool a :: int)"
    "2 * of_bool b = push_bit 1 (of_bool b :: int)"
    "4 * of_bool c = push_bit 2 (of_bool c :: int)"
    "8 * of_bool d = push_bit 3 (of_bool d :: int)"
    "16 * of_bool e = push_bit 4 (of_bool e :: int)"
    by (simp_all add: push_bit_eq_mult)
  have q: "bit (push_bit k (of_bool x :: int)) n \<longleftrightarrow> n = k \<and> x" for k x
    by (auto simp: bit_push_bit_iff bit_of_bool_iff)
  show ?thesis
    unfolding p by (simp only: bit_or_iff q)
qed

lemma masked_zero_iff:
  "((f XOR e) AND m = (0::int)) \<longleftrightarrow> (\<forall>n. bit m n \<longrightarrow> bit f n = bit e n)"
  by (auto simp: bit_eq_iff bit_and_iff bit_xor_iff)

lemma five_positions:
  "(\<forall>n::nat. (n = 0 \<and> pa) \<or> (n = 1 \<and> pb) \<or> (n = 2 \<and> pc) \<or> (n = 3 \<and> pd) \<or> (n = 4 \<and> pe) \<longrightarrow>
        P n = ((n = 0 \<and> a) \<or> (n = 1 \<and> b) \<or> (n = 2 \<and> c) \<or> (n = 3 \<and> d) \<or> (n = 4 \<and> e)))
   \<longleftrightarrow> (pa \<longrightarrow> P 0 = a) \<and> (pb \<longrightarrow> P 1 = b) \<and> (pc \<longrightarrow> P 2 = c) \<and> (pd \<longrightarrow> P 3 = d) \<and>
       (pe \<longrightarrow> P 4 = e)"
  (is "?L \<longleftrightarrow> ?R")
proof
  assume l: ?L
  from l [rule_format, of 0] l [rule_format, of 1] l [rule_format, of 2] l [rule_format, of 3]
    l [rule_format, of 4]
  show ?R by simp
next
  assume r: ?R
  show ?L
  proof (intro allI impI)
    fix n :: nat
    assume "(n = 0 \<and> pa) \<or> (n = 1 \<and> pb) \<or> (n = 2 \<and> pc) \<or> (n = 3 \<and> pd) \<or> (n = 4 \<and> pe)"
    then consider "n = 0" "pa" | "n = 1" "pb" | "n = 2" "pc" | "n = 3" "pd" | "n = 4" "pe"
      by blast
    then show "P n = ((n = 0 \<and> a) \<or> (n = 1 \<and> b) \<or> (n = 2 \<and> c) \<or> (n = 3 \<and> d) \<or> (n = 4 \<and> e))"
      using r by cases simp_all
  qed
qed


lemma FontFilter_init_Inr:
  assumes "FontFilter_init rc d = Inr ff"
  shows "rc (dget (fd_name d) '''') = Some (ff_name ff)"
    and "ff_size ff = fd_size d"
    and "ff_size_tolerance ff = dget (fd_size_tolerance d) DEF_TOLERANCE"
    and "ff_color ff = fd_color d"
    and "ff_flags ff = (1 * of_bool (dget (fd_superscript d) False) OR
                        2 * of_bool (dget (fd_italic d) False) OR
                        4 * of_bool (dget (fd_serif d) False) OR
                        8 * of_bool (dget (fd_monospace d) False) OR
                        16 * of_bool (dget (fd_bold d) False))"
    and "ff_ign_mask ff = (1 * of_bool (fd_superscript d \<noteq> None) OR
                           2 * of_bool (fd_italic d \<noteq> None) OR
                           4 * of_bool (fd_serif d \<noteq> None) OR
                           8 * of_bool (fd_monospace d \<noteq> None) OR
                           16 * of_bool (fd_bold d \<noteq> None))"
  using assms by (auto simp: FontFilter_init_def split: option.splits)

lemma FontFilter_init_Some:
  "rc (dget (fd_name d) '''') = Some pat \<Longrightarrow>
   \<exists>ff. FontFilter_init rc d = Inr ff \<and> ff_name ff = pat"
  by (simp add: FontFilter_init_def)


lemma bit_ff_flags:
  assumes "FontFilter_init rc d = Inr ff"
  shows "bit (ff_flags ff) n \<longleftrightarrow>
     (n = 0 \<and> dget (fd_superscript d) False) \<or> (n = 1 \<and> dget (fd_italic d) False) \<or>
     (n = 2 \<and> dget (fd_serif d) False) \<or> (n = 3 \<and> dget (fd_monospace d) False) \<or>
     (n = 4 \<and> dget (fd_bold d) False)"
  by (simp only: FontFilter_init_Inr(5) [OF assms] bit_packed_flags)

lemma bit_ff_ign_mask:
  assumes "FontFilter_init rc d = Inr ff"
  shows "bit (ff_ign_mask ff) n \<longleftrightarrow>
     (n = 0 \<and> fd_superscript d \<noteq> None) \<or> (n = 1 \<and> fd_italic d \<noteq> None) \<or>
     (n = 2 \<and> fd_serif d \<noteq> None) \<or> (n = 3 \<and> fd_monospace d \<noteq> None) \<or>
     (n = 4 \<and> fd_bold d \<noteq> None)"
  by (simp only: FontFilter_init_Inr(6) [OF assms] bit_packed_flags)

lemma flag_matches_iff:
  "flag_matches c f i \<longleftrightarrow> (c \<noteq> None \<longrightarrow> bit f i = dget c False)"
  by (cases c) (simp_all add: flag_matches_def dget_def)


lemma flags_table:
  assumes "FontFilter_init rc d = Inr ff" and "s_flags spn = Some f"
  shows "admits_flags ff spn =
     (flag_matches (fd_superscript d) f 0 \<and> flag_matches (fd_italic d) f 1 \<and>
      flag_matches (fd_serif d) f 2 \<and> flag_matches (fd_monospace d) f 3 \<and>
      flag_matches (fd_bold d) f 4)"
proof -
  have "admits_flags ff spn \<longleftrightarrow> (f XOR ff_flags ff) AND ff_ign_mask ff = 0"
    using assms(2) by (simp add: admits_flags_def dget_def)
  also have "\<dots> \<longleftrightarrow> (\<forall>n. bit (ff_ign_mask ff) n \<longrightarrow> bit f n = bit (ff_flags ff) n)"
    by (rule masked_zero_iff)
  finally show ?thesis
    by (simp only: bit_ff_flags [OF assms(1)] bit_ff_ign_mask [OF assms(1)] five_positions
        flag_matches_iff)
qed

lemma int_zero_iff_no_bit: "(m::int) = 0 \<longleftrightarrow> (\<forall>n. \<not> bit m n)"
  by (simp only: bit_eq_iff [of m 0] bit_0_eq, simp)

lemma not_xor_self_and: "(NOT e XOR e) AND m = (m::int)"
  by simp

lemma missing_flags:
  assumes "FontFilter_init rc d = Inr ff" and "s_flags spn = None"
  shows "admits_flags ff spn =
     (fd_superscript d = None \<and> fd_italic d = None \<and> fd_serif d = None \<and>
      fd_monospace d = None \<and> fd_bold d = None)"
proof -
  have "admits_flags ff spn \<longleftrightarrow> (NOT (ff_flags ff) XOR ff_flags ff) AND ff_ign_mask ff = 0"
    using assms(2) by (simp only: admits_flags_def dget_def Let_def option.case)
  also have "\<dots> \<longleftrightarrow> (\<forall>n. \<not> bit (ff_ign_mask ff) n)"
    by (simp only: not_xor_self_and int_zero_iff_no_bit)
  also have "\<dots> \<longleftrightarrow> (fd_superscript d = None \<and> fd_italic d = None \<and> fd_serif d = None \<and>
      fd_monospace d = None \<and> fd_bold d = None)"
  proof
    assume a: "\<forall>n. \<not> bit (ff_ign_mask ff) n"
    from a [rule_format, of 0] a [rule_format, of 1] a [rule_format, of 2] a [rule_format, of 3]
      a [rule_format, of 4]
    show "fd_superscript d = None \<and> fd_italic d = None \<and> fd_serif d = None \<and>
      fd_monospace d = None \<and> fd_bold d = None"
      by (simp add: bit_ff_ign_mask [OF assms(1)])
  next
    assume "fd_superscript d = None \<and> fd_italic d = None \<and> fd_serif d = None \<and>
      fd_monospace d = None \<and> fd_bold d = None"
    then show "\<forall>n. \<not> bit (ff_ign_mask ff) n"
      by (simp add: bit_ff_ign_mask [OF assms(1)])
  qed
  finally show ?thesis .
qed

lemma FontFilter_admits_init:
  assumes "FontFilter_init rc d = Inr ff"
  shows "FontFilter_admits ff spn \<longleftrightarrow>
     ff_name ff (dget (s_font spn) '''') \<and>
     (fd_color d = None \<or> fd_color d = s_color spn) \<and>
     admits_float (map_option Finite (fd_size d)) (map_option Finite (s_size spn))
       (Finite (dget (fd_size_tolerance d) DEF_TOLERANCE)) \<and>
     admits_flags ff spn"
  unfolding FontFilter_admits_def FontFilter_init_Inr(2,3,4) [OF assms] by auto

lemma literal_compile_empty: "literal_compile '''' = Some (\<lambda>s. sublist '''' s)"
  by (simp only: literal_compile_def list.case)

lemma literal_init:
  "fd_name d = None \<Longrightarrow>
   \<exists>ff. FontFilter_init literal_compile d = Inr ff \<and> ff_name ff = (\<lambda>s. sublist '''' s)"
  by (rule FontFilter_init_Some) (simp add: dget_def literal_compile_empty)

text \<open>
  Claim C6. For a constructed predicate and a span whose \<^verbatim>\<open>flags\<close> key is present, the masked
  comparison is the ternary truth table: the style-flag step passes exactly when every flag
  set in the configuration equals the corresponding bit of the span, whatever the other
  bits are. In particular a span whose flags contain bold and italic passes the step of
  the predicate constraining only bold=true, which admits the span as soon as its name
  pattern matches, and is rejected by the predicate constraining bold=true and
  italic=false.
\<close>

theorem masked_flags_truth_table:
  assumes "s_flags spn = Some f"
  shows "(FontFilter_init rc d = Inr ff \<longrightarrow>
            (admits_flags ff spn \<longleftrightarrow>
               flag_matches (fd_superscript d) f 0 \<and> flag_matches (fd_italic d) f 1 \<and>
               flag_matches (fd_serif d) f 2 \<and> flag_matches (fd_monospace d) f 3 \<and>
               flag_matches (fd_bold d) f 4)) \<and>
         (bit f 1 \<and> bit f 4 \<longrightarrow>
            (FontFilter_init rc bold_only = Inr p1 \<longrightarrow>
               admits_flags p1 spn \<and>
               (FontFilter_admits p1 spn \<longleftrightarrow> ff_name p1 (dget (s_font spn) ''''))) \<and>
            (FontFilter_init rc bold_not_italic = Inr p2 \<longrightarrow>
               \<not> admits_flags p2 spn \<and> \<not> FontFilter_admits p2 spn))"
proof -
  have t: "admits_flags ff spn \<longleftrightarrow>
      flag_matches (fd_superscript d) f 0 \<and> flag_matches (fd_italic d) f 1 \<and>
      flag_matches (fd_serif d) f 2 \<and> flag_matches (fd_monospace d) f 3 \<and>
      flag_matches (fd_bold d) f 4" if "FontFilter_init rc d = Inr ff"
    using that assms by (rule flags_table)
  have 1: "admits_flags p1 spn" if "FontFilter_init rc bold_only = Inr p1" "bit f 4"
    using that(2)
    by (simp add: flags_table [OF that(1) assms] bold_only_def empty_font_dict_def
        flag_matches_def)
  have 2: "\<not> admits_flags p2 spn" if "FontFilter_init rc bold_not_italic = Inr p2" "bit f 1"
    using that(2)
    by (simp add: flags_table [OF that(1) assms] bold_not_italic_def empty_font_dict_def
        flag_matches_def)
  have 3: "FontFilter_admits p1 spn \<longleftrightarrow> ff_name p1 (dget (s_font spn) '''')"
    if "FontFilter_init rc bold_only = Inr p1" "bit f 4"
    using 1 [OF that]
    by (simp add: FontFilter_admits_init [OF that(1)])
      (simp add: bold_only_def empty_font_dict_def admits_float_None)
  have 4: "\<not> FontFilter_admits p2 spn" if "FontFilter_init rc bold_not_italic = Inr p2" "bit f 1"
    using 2 [OF that] by (simp add: FontFilter_admits_init [OF that(1)])
  from t 1 2 3 4 show ?thesis by blast
qed

theorem masked_flags_truth_table_witness:
  "s_flags (bare_span\<lparr>s_flags := Some 18\<rparr>) = Some 18 \<and> bit (18 :: int) 1 \<and> bit (18 :: int) 4 \<and>
   (\<exists>p1 p2. FontFilter_init literal_compile bold_only = Inr p1 \<and>
      FontFilter_init literal_compile bold_not_italic = Inr p2 \<and>
      FontFilter_admits p1 (bare_span\<lparr>s_flags := Some 18\<rparr>) \<and>
      \<not> FontFilter_admits p2 (bare_span\<lparr>s_flags := Some 18\<rparr>))"
proof -
  obtain p1 where p1: "FontFilter_init literal_compile bold_only = Inr p1"
    and n1: "ff_name p1 = (\<lambda>s. sublist '''' s)"
    using literal_init [of bold_only] by (auto simp: bold_only_def empty_font_dict_def)
  obtain p2 where p2: "FontFilter_init literal_compile bold_not_italic = Inr p2"
    using literal_init [of bold_not_italic]
    by (auto simp: bold_not_italic_def empty_font_dict_def)
  have s: "s_flags (bare_span\<lparr>s_flags := Some 18\<rparr>) = Some 18"
    by simp
  from masked_flags_truth_table [OF s, of literal_compile bold_only p1 p1 p2] p1 p2
  have "FontFilter_admits p1 (bare_span\<lparr>s_flags := Some 18\<rparr>)"
    and "\<not> FontFilter_admits p2 (bare_span\<lparr>s_flags := Some 18\<rparr>)"
    by (simp_all add: n1)
  with p1 p2 show ?thesis by auto
qed

text \<open>
  Claim C1, as amended. A span without a \<^verbatim>\<open>flags\<close> key takes the complement of the expected
  flags as its flags, so every constrained position differs: the style-flag step of a
  constructed predicate passes exactly when the configuration sets none of the five style
  flags, and \<^verbatim>\<open>FontFilter.admits\<close> is then decided by the name, colour and size steps alone.
\<close>

theorem missing_flags_admitted_iff_unconstrained:
  assumes "FontFilter_init rc d = Inr ff"
  shows "(admits_flags ff (spn\<lparr>s_flags := None\<rparr>) \<longleftrightarrow>
      fd_superscript d = None \<and> fd_italic d = None \<and> fd_serif d = None \<and>
      fd_monospace d = None \<and> fd_bold d = None) \<and>
   (FontFilter_admits ff (spn\<lparr>s_flags := None\<rparr>) \<longleftrightarrow>
      ff_name ff (dget (s_font spn) '''') \<and>
      (fd_color d = None \<or> fd_color d = s_color spn) \<and>
      admits_float (map_option Finite (fd_size d)) (map_option Finite (s_size spn))
        (Finite (dget (fd_size_tolerance d) DEF_TOLERANCE)) \<and>
      fd_superscript d = None \<and> fd_italic d = None \<and> fd_serif d = None \<and>
      fd_monospace d = None \<and> fd_bold d = None)"
  by (simp add: FontFilter_admits_init [OF assms] missing_flags [OF assms])

theorem missing_flags_admitted_iff_unconstrained_witness:
  "\<exists>ff. FontFilter_init literal_compile empty_font_dict = Inr ff \<and>
     admits_flags ff (bare_span\<lparr>s_flags := None\<rparr>) \<and>
     FontFilter_admits ff (bare_span\<lparr>s_flags := None\<rparr>)"
proof -
  obtain ff where ff: "FontFilter_init literal_compile empty_font_dict = Inr ff"
    and n: "ff_name ff = (\<lambda>s. sublist '''' s)"
    using literal_init [of empty_font_dict] by (auto simp: empty_font_dict_def)
  from missing_flags_admitted_iff_unconstrained [OF ff, of bare_span]
  have "admits_flags ff (bare_span\<lparr>s_flags := None\<rparr>)"
    and "FontFilter_admits ff (bare_span\<lparr>s_flags := None\<rparr>)"
    by (simp_all add: n empty_font_dict_def admits_float_None)
  with ff show ?thesis by blast
qed

text \<open>
  Claim C1 as stated fails: the predicate constraining bold=true rejects the span that
  has no \<^verbatim>\<open>flags\<close> key, in the style-flag step, and admits the same span once it carries
  the bold bit.
\<close>

theorem missing_flags_rejected_counterexample:
  "s_flags bare_span = None \<and>
   (\<exists>ff. FontFilter_init literal_compile bold_only = Inr ff \<and>
      \<not> admits_flags ff bare_span \<and>
      \<not> FontFilter_admits ff bare_span \<and>
      FontFilter_admits ff (bare_span\<lparr>s_flags := Some 16\<rparr>))"
proof -
  obtain ff where ff: "FontFilter_init literal_compile bold_only = Inr ff"
    and nm: "ff_name ff = (\<lambda>s. sublist '''' s)"
    using literal_init [of bold_only] by (auto simp: bold_only_def empty_font_dict_def)
  have n: "s_flags bare_span = None"
    by (simp add: bare_span_def)
  have a: "\<not> admits_flags ff bare_span"
    by (simp add: missing_flags [OF ff n] bold_only_def empty_font_dict_def)
  have s: "s_flags (bare_span\<lparr>s_flags := Some 16\<rparr>) = Some 16"
    by simp
  have b: "admits_flags ff (bare_span\<lparr>s_flags := Some 16\<rparr>)"
    by (simp add: flags_table [OF ff s] bold_only_def empty_font_dict_def flag_matches_def)
  have c: "FontFilter_admits ff (bare_span\<lparr>s_flags := Some 16\<rparr>)"
    using b by (simp add: FontFilter_admits_init [OF ff] nm)
      (simp add: bold_only_def empty_font_dict_def admits_float_None)
  have d: "\<not> FontFilter_admits ff bare_span"
    using a by (simp add: FontFilter_admits_init [OF ff])
  from n ff a d c show ?thesis by blast
qed

lemma FontFilter_empty_admits:
  assumes "FontFilter_init rc empty_font_dict = Inr ff" and "\<forall>s. ff_name ff s"
  shows "FontFilter_admits ff spn"
proof -
  have "admits_flags ff spn"
    by (simp add: admits_flags_def FontFilter_init_Inr(5,6) [OF assms(1)] empty_font_dict_def
        dget_def)
  then show ?thesis
    using assms(2)
    by (simp add: FontFilter_admits_init [OF assms(1)])
      (simp add: empty_font_dict_def admits_float_None)
qed

text \<open>
  Claim C9. The predicate constructed from the empty configuration admits every span,
  given that the compiled empty pattern matches every string: no colour, size or style
  flag is constrained, and a missing font name is searched as the empty string.
\<close>

theorem empty_font_dict_admits_all:
  assumes "FontFilter_init rc empty_font_dict = Inr ff" and "\<forall>s. ff_name ff s"
  shows "FontFilter_admits ff spn"
  using assms by (rule FontFilter_empty_admits)

theorem empty_font_dict_admits_all_witness:
  "\<exists>ff. FontFilter_init literal_compile empty_font_dict = Inr ff \<and> (\<forall>s. ff_name ff s) \<and>
     FontFilter_admits ff bare_span \<and>
     FontFilter_admits ff
       \<lparr>s_text = Some ''Intro'', s_font = Some ''Regular'', s_size = Some 9, s_color = Some 255,
        s_flags = Some 6, s_bbox = Some (0, 11, 100, 21)\<rparr>"
proof -
  obtain ff where ff: "FontFilter_init literal_compile empty_font_dict = Inr ff"
    and n: "ff_name ff = (\<lambda>s. sublist '''' s)"
    using literal_init [of empty_font_dict] by (auto simp: empty_font_dict_def)
  have a: "\<forall>s. ff_name ff s"
    by (simp add: n)
  from ff a empty_font_dict_admits_all [OF ff a, of bare_span]
    empty_font_dict_admits_all [OF ff a, of "\<lparr>s_text = Some ''Intro'',
      s_font = Some ''Regular'', s_size = Some 9, s_color = Some 255, s_flags = Some 6,
      s_bbox = Some (0, 11, 100, 21)\<rparr>"]
  show ?thesis by blast
qed

section \<open>Construction of the filter\<close>







section \<open>Merging runs: refinement\<close>

subsection \<open>The state machine and the grouping\<close>

lemma runs_from_nonempty_cur:
  "cur \<noteq> [] \<Longrightarrow>
   runs_from cur xs =
     (cur @ map the (takeWhile (\<lambda>y. y \<noteq> None) xs)) # runs_from [] (dropWhile (\<lambda>y. y \<noteq> None) xs)"
proof (induction xs arbitrary: cur)
  case Nil
  then show ?case by simp
next
  case (Cons x xs)
  show ?case
  proof (cases x)
    case None
    with Cons.prems show ?thesis by simp
  next
    case (Some y)
    with Cons.IH [of "cur @ [y]"] show ?thesis by simp
  qed
qed

lemma runs_from_skip_None:
  "runs_from [] xs = runs_from [] (dropWhile (\<lambda>y. y = None) xs)"
proof (induction xs)
  case Nil
  then show ?case by simp
next
  case (Cons x xs)
  then show ?case by (cases x) simp_all
qed

lemma value_runs_Cons_Some:
  "value_runs (Some p # xs) =
     (p # map the (takeWhile (\<lambda>y. y \<noteq> None) xs)) # value_runs (dropWhile (\<lambda>y. y \<noteq> None) xs)"
  using runs_from_nonempty_cur [of "[p]" xs] by (simp add: value_runs_def)

lemma value_runs_Cons_None:
  "value_runs (None # xs) = value_runs (dropWhile (\<lambda>y. y = None) xs)"
  using runs_from_skip_None [of xs] by (simp add: value_runs_def)

lemma value_runs_groupby:
  "value_runs ls = map (\<lambda>(k, g). map the g) (filter (\<lambda>(k, g). \<not> k) (groupby ls (\<lambda>x. x = None)))"
proof (induction ls "\<lambda>x :: 'a option. x = None" rule: groupby.induct)
  case 1
  show ?case by (simp add: value_runs_def)
next
  case (2 x xs)
  show ?case
  proof (cases x)
    case None
    with 2 show ?thesis by (simp add: value_runs_Cons_None)
  next
    case (Some p)
    with 2 show ?thesis by (simp add: value_runs_Cons_Some)
  qed
qed

subsection \<open>Groups of \<^verbatim>\<open>groupby\<close>\<close>

lemma groupby_map:
  "groupby (map f xs) key = map (\<lambda>(k, g). (k, map f g)) (groupby xs (key \<circ> f))"
proof (induction xs "key \<circ> f" rule: groupby.induct)
  case 1
  show ?case by simp
next
  case (2 x xs)
  then show ?case by (simp add: takeWhile_map dropWhile_map comp_def)
qed

lemma groupby_groups:
  "(k, g) \<in> set (groupby xs key) \<Longrightarrow> g \<noteq> [] \<and> (\<forall>y \<in> set g. key y = k)"
proof (induction xs key rule: groupby.induct)
  case (1 key)
  then show ?case by simp
next
  case (2 x xs key)
  let ?P = "\<lambda>y. key y = key x"
  from "2.prems" have "(k, g) \<in> set ((key x, x # takeWhile ?P xs) # groupby (dropWhile ?P xs) key)"
    by (simp only: groupby.simps)
  then have "(k, g) = (key x, x # takeWhile ?P xs) \<or> (k, g) \<in> set (groupby (dropWhile ?P xs) key)"
    by (simp only: list.set insert_iff)
  then show ?case
  proof
    assume "(k, g) = (key x, x # takeWhile ?P xs)"
    then have k: "k = key x" and g: "g = x # takeWhile ?P xs"
      by (simp_all only: prod.inject)
    have ne: "g \<noteq> []"
      unfolding g by (rule list.distinct(2))
    have "key y = k" if "y \<in> set g" for y
    proof -
      from that have "y = x \<or> y \<in> set (takeWhile ?P xs)"
        unfolding g by (simp only: list.set insert_iff)
      then show ?thesis
      proof
        assume "y = x"
        then show ?thesis unfolding k by (rule arg_cong)
      next
        assume "y \<in> set (takeWhile ?P xs)"
        from set_takeWhileD [OF this] show ?thesis unfolding k by (rule conjunct2)
      qed
    qed
    with ne show ?thesis by blast
  next
    assume "(k, g) \<in> set (groupby (dropWhile ?P xs) key)"
    then show ?thesis by (rule "2.IH")
  qed
qed

lemma with_text_None: "(with_text x = None) = (x = None)"
  by (simp add: with_text_def)

lemma groupby_with_text:
  "groupby (map with_text ls) (\<lambda>x. x = None) =
     map (\<lambda>(k, g). (k, map with_text g)) (groupby ls (\<lambda>x. x = None))"
proof -
  have "(\<lambda>x. x = None) \<circ> with_text = (\<lambda>x. x = None)"
    by (simp add: fun_eq_iff with_text_None)
  with groupby_map [of with_text ls "\<lambda>x. x = None"] show ?thesis
    by (simp only:)
qed

lemma py_min_Min: "vs \<noteq> [] \<Longrightarrow> py_min vs = Inr (Min (set vs))"
proof -
  have m: "(\<lambda>x m :: real. if x < m then x else m) = min"
    by (auto simp: fun_eq_iff min_def)
  assume "vs \<noteq> []"
  then obtain v rest where vs: "vs = v # rest" by (cases vs) auto
  have "py_min (v # rest) = Inr (fold min rest v)"
    by (simp add: py_min_def m)
  also have "fold min rest v = Min (set (v # rest))"
    by (rule Min.set_eq_fold [symmetric])
  finally show ?thesis by (simp only: vs)
qed

lemma those_map_Some: "those (map Some xs) = Some xs"
  by (induction xs) simp_all

lemma all_present: "\<forall>y \<in> set g. y \<noteq> None \<Longrightarrow> g = map Some (map the g)"
  by (induction g) auto

lemma with_text_Some:
  "map with_text (map Some ps) = map Some (map (\<lambda>p. (Some (fst p), snd p)) ps)"
  by (simp add: with_text_def case_prod_beta)

lemma unzip_group_Some:
  "qs \<noteq> [] \<Longrightarrow> unzip_group (map Some qs) = Inr (map fst qs, map snd qs)"
  by (simp add: unzip_group_def those_map_Some)

lemma str_join_Some: "str_join sep (map Some ss) = Inr (join sep ss)"
  by (simp add: str_join_def those_map_Some)

lemma merge_value_run:
  assumes "ps \<noteq> []"
  shows "merge_loop sep ((False, map with_text (map Some ps)) # gs) result =
           merge_loop sep gs (result @ [merge_run sep ps])"
proof -
  let ?qs = "map (\<lambda>p. (Some (fst p), snd p)) ps"
  have ne: "?qs \<noteq> []" using assms by simp
  have f: "map fst ?qs = map Some (map fst ps)" and s: "map snd ?qs = map snd ps"
    by (simp_all add: comp_def)
  have u: "unzip_group (map with_text (map Some ps)) = Inr (map Some (map fst ps), map snd ps)"
    unfolding with_text_Some using unzip_group_Some [OF ne] by (simp only: f s)
  have m: "py_min (map snd ps) = Inr (Min (set (map snd ps)))"
    using assms by (simp add: py_min_Min)
  show ?thesis
    by (simp only: merge_loop.simps u str_join_Some m merge_run_def sum.case prod.case
        not_False_eq_True if_True)
qed

lemma merge_loop_groups:
  assumes "\<And>k g. (k, g) \<in> set gs \<Longrightarrow> g \<noteq> [] \<and> (\<forall>y \<in> set g. (y = None) = k)"
  shows "merge_loop sep (map (\<lambda>(k, g). (k, map with_text g)) gs) result =
           Inr (result @ map (merge_run sep) (map (\<lambda>(k, g). map the g) (filter (\<lambda>(k, g). \<not> k) gs)))"
  using assms
proof (induction gs arbitrary: result)
  case Nil
  show ?case by simp
next
  case (Cons kg gs)
  obtain k g where kg: "kg = (k, g)" by (cases kg)
  have g: "g \<noteq> [] \<and> (\<forall>y \<in> set g. (y = None) = k)"
    by (rule Cons.prems) (simp add: kg)
  have rest: "g' \<noteq> [] \<and> (\<forall>y \<in> set g'. (y = None) = k')" if "(k', g') \<in> set gs" for k' g'
    by (rule Cons.prems) (simp add: that)
  note IH = Cons.IH [OF rest]
  show ?case
  proof (cases k)
    case True
    then show ?thesis by (simp add: kg IH)
  next
    case False
    with g have "\<forall>y \<in> set g. y \<noteq> None" by simp
    then have m: "g = map Some (map the g)" by (rule all_present)
    from g have ne: "map the g \<noteq> []" by simp
    have "merge_loop sep ((False, map with_text g) # map (\<lambda>(k, g). (k, map with_text g)) gs) result
        = merge_loop sep (map (\<lambda>(k, g). (k, map with_text g)) gs) (result @ [merge_run sep (map the g)])"
      using merge_value_run [OF ne, of sep "map (\<lambda>(k, g). (k, map with_text g)) gs" result]
      by (simp only: m [symmetric])
    then show ?thesis by (simp add: kg False IH)
  qed
qed

lemma merge_optional_spec:
  "merge_optional (map with_text ls) sep = Inr (merge_spec sep ls)"
proof -
  have "g \<noteq> [] \<and> (\<forall>y \<in> set g. (y = None) = k)"
    if "(k, g) \<in> set (groupby ls (\<lambda>x. x = None))" for k g
    using that by (rule groupby_groups)
  then have "merge_loop sep (map (\<lambda>(k, g). (k, map with_text g)) (groupby ls (\<lambda>x. x = None))) []
      = Inr ([] @ map (merge_run sep) (map (\<lambda>(k, g). map the g)
          (filter (\<lambda>(k, g). \<not> k) (groupby ls (\<lambda>x. x = None)))))"
    by (rule merge_loop_groups)
  then show ?thesis
    by (simp add: merge_optional_def groupby_with_text merge_spec_def value_runs_groupby)
qed

subsection \<open>Laws of the run partition\<close>

lemma runs_from_all_present:
  "runs_from cur (map Some ps) = (if cur @ ps = [] then [] else [cur @ ps])"
  by (induction ps arbitrary: cur) simp_all




lemma value_runs_all_present: "ps \<noteq> [] \<Longrightarrow> value_runs (map Some ps) = [ps]"
  by (simp add: value_runs_def runs_from_all_present)


lemma runs_from_nonempty: "[] \<notin> set (runs_from cur ls)"
proof (induction ls arbitrary: cur)
  case Nil
  show ?case by simp
next
  case (Cons x xs)
  then show ?case by (cases x) simp_all
qed

lemma value_runs_nonempty: "[] \<notin> set (value_runs ls)"
  by (simp add: value_runs_def runs_from_nonempty)

lemma concat_runs_from:
  "concat (runs_from cur ls) = cur @ map the (filter (\<lambda>y. y \<noteq> None) ls)"
proof (induction ls arbitrary: cur)
  case Nil
  show ?case by simp
next
  case (Cons x xs)
  then show ?case by (cases x) simp_all
qed

lemma concat_value_runs: "concat (value_runs ls) = map the (filter (\<lambda>y. y \<noteq> None) ls)"
  by (simp add: value_runs_def concat_runs_from)



section \<open>Extraction\<close>

lemma extract_spans_spec:
  "list_all (span_has_text f) spns \<Longrightarrow> extract_spans f spns = map with_text (spec_spans f spns)"
  by (induction spns)
    (auto simp: extract_spans_def spec_spans_def span_has_text_def with_text_def top_of_def dget_def)

lemma extract_lines_spec:
  "list_all (\<lambda>ln. list_all (span_has_text f) (dget (l_spans ln) [])) lines \<Longrightarrow>
   extract_lines f lines = map with_text (spec_lines f lines)"
  by (induction lines) (simp_all add: extract_lines_def spec_lines_def extract_spans_spec)

lemma merge_block_spec:
  "block_has_text f blk \<Longrightarrow>
   merge_optional (extract_lines f (dget (b_lines blk) [])) '' '' = Inr (spec_block f blk)"
  by (simp add: block_has_text_def extract_lines_spec merge_optional_spec spec_block_def)

lemma blocks_loop_spec:
  "list_all (block_has_text f) blks \<Longrightarrow>
   blocks_loop f blks entries = Inr (entries @ concat (map (spec_block f) blks))"
  by (induction blks arbitrary: entries) (simp_all add: merge_block_spec)

lemma pages_loop_spec:
  "pages_have_text f pgs \<Longrightarrow>
   pages_loop f pgs (int k) result =
     Inr (result @ concat (map (\<lambda>(n, pg). spec_page f (int n) pg) (enumerate k pgs)))"
proof (induction pgs arbitrary: k result)
  case Nil
  show ?case by simp
next
  case (Cons pg pgs)
  from Cons.prems have pg: "list_all (block_has_text f) (dget (p_blocks pg) [])"
    and rest: "pages_have_text f pgs"
    by (simp_all add: pages_have_text_def)
  have s: "int k + 1 = int (Suc k)" by simp
  show ?case
    by (simp only: pages_loop.simps blocks_loop_spec [OF pg] sum.case s Cons.IH [OF rest]
        enumerate_simps list.map concat.simps prod.case spec_page_def append_Nil append_assoc)
qed

lemma extract_toc_spec:
  "pages_have_text f pages \<Longrightarrow> extract_toc pages f = Inr (spec_toc f pages)"
  using pages_loop_spec [of f pages 1 "[]"] by (simp add: extract_toc_def spec_toc_def)

lemma BoundingBoxFilter_admits_empty:
  "BoundingBoxFilter_admits (BoundingBoxFilter_init empty_bbox_dict) spn"
  by (simp add: BoundingBoxFilter_admits_def BoundingBoxFilter_init_def empty_bbox_dict_def
      admits_float_def split: option.splits prod.splits)

lemma scenario_font_admits:
  assumes "FontFilter_init rc (empty_font_dict\<lparr>fd_name := Some ''Bold'', fd_bold := Some True\<rparr>)
             = Inr ff"
  shows "FontFilter_admits ff spn \<longleftrightarrow> ff_name ff (dget (s_font spn) '''') \<and> admits_flags ff spn"
  by (simp add: FontFilter_admits_init [OF assms])
    (simp add: empty_font_dict_def dget_def admits_float_None)

lemma scenario_flags:
  assumes "FontFilter_init rc (empty_font_dict\<lparr>fd_name := Some ''Bold'', fd_bold := Some True\<rparr>)
             = Inr ff"
    and "s_flags spn = Some fl"
  shows "admits_flags ff spn \<longleftrightarrow> bit fl 4"
  by (simp add: flags_table [OF assms] empty_font_dict_def flag_matches_def)

lemma literal_Bold:
  "\<exists>p. literal_compile ''Bold'' = Some p \<and> p ''Bold-Font''"
  by (simp add: literal_compile_def sublist_code)

lemma plain_filter_admits: "ToCFilter_admits plain_filter spn"
  by (simp add: ToCFilter_admits_def plain_filter_def BoundingBoxFilter_admits_empty
      FontFilter_admits_def admits_float_None admits_flags_def)

lemma plain_filter_init:
  "ToCFilter_init literal_compile \<lparr>fl_level = Some 1, fl_font = None, fl_bbox = None\<rparr> =
     Inr plain_filter"
  by (simp add: ToCFilter_init_def FontFilter_init_def plain_filter_def dget_def
      empty_font_dict_def literal_compile_def fun_eq_iff)

text \<open>
  Claim C4. With any pattern engine that compiles "Bold" to a pattern found in
  "Bold-Font", the filter \<open>{level: 1, font: {name: "Bold", bold: true}, bbox: {}}\<close> is
  constructed and, applied to the one-page input of the scenario, yields exactly the
  entries (1, "Chapter 1", 1, 10) and (1, "Intro", 1, 11), in that order: the span
  "footnote" between them is rejected by its flags, whatever the engine says of its font,
  and splits the run.
\<close>

theorem scenario_extract:
  assumes "rc ''Bold'' = Some p" and "p ''Bold-Font''"
  shows "\<exists>f. ToCFilter_init rc scenario_filter = Inr f \<and>
           extract_toc [scenario_page a b c] f =
             Inr [ToCEntry 1 ''Chapter 1'' 1 10, ToCEntry 1 ''Intro'' 1 11]"
proof -
  let ?fd = "empty_font_dict\<lparr>fd_name := Some ''Bold'', fd_bold := Some True\<rparr>"
  have "rc (dget (fd_name ?fd) '''') = Some p"
    using assms(1) by (simp add: dget_def)
  from FontFilter_init_Some [of rc ?fd p] this obtain ff
    where ff: "FontFilter_init rc ?fd = Inr ff" and nm: "ff_name ff = p"
    by blast
  define f where "f = \<lparr>tf_level = 1, tf_font = ff,
    tf_bbox = BoundingBoxFilter_init empty_bbox_dict\<rparr>"
  let ?A = "a\<lparr>s_text := Some ''Chapter 1'', s_font := Some ''Bold-Font'', s_flags := Some 16,
    s_bbox := Some (0, 10, 100, 20)\<rparr>"
  let ?B = "b\<lparr>s_text := Some ''footnote'', s_font := Some ''Regular'', s_flags := Some 0,
    s_bbox := Some (0, 50, 50, 60)\<rparr>"
  let ?C = "c\<lparr>s_text := Some ''Intro'', s_font := Some ''Bold-Font'', s_flags := Some 16,
    s_bbox := Some (0, 11, 100, 21)\<rparr>"
  have init: "ToCFilter_init rc scenario_filter = Inr f"
    by (simp add: ToCFilter_init_def scenario_filter_def f_def dget_def ff)
  have adm: "ToCFilter_admits f spn \<longleftrightarrow> p (dget (s_font spn) '''') \<and> admits_flags ff spn"
    for spn
    by (simp add: ToCFilter_admits_def f_def BoundingBoxFilter_admits_empty
        scenario_font_admits [OF ff] nm)
  have A: "ToCFilter_admits f ?A"
    using assms(2) by (simp add: adm scenario_flags [OF ff, of _ 16] dget_def)
  have B: "\<not> ToCFilter_admits f ?B"
    by (simp add: adm scenario_flags [OF ff, of _ 0])
  have C: "ToCFilter_admits f ?C"
    using assms(2) by (simp add: adm scenario_flags [OF ff, of _ 16] dget_def)
  have ex: "extract_lines f [\<lparr>l_spans = Some [?A, ?B]\<rparr>, \<lparr>l_spans = Some [?C]\<rparr>] =
      map with_text [Some (''Chapter 1'', 10), None, Some (''Intro'', 11)]"
    by (simp add: extract_lines_def extract_spans_def A B C dget_def with_text_def)
  have "merge_optional (map with_text [Some (''Chapter 1'', 10), None, Some (''Intro'', 11)]) '' ''
      = Inr (merge_spec '' '' [Some (''Chapter 1'', 10), None, Some (''Intro'', 11)])"
    by (rule merge_optional_spec)
  also have "merge_spec '' '' [Some (''Chapter 1'', 10), None, Some (''Intro'', 11)] =
      [(''Chapter 1'', 10), (''Intro'', 11)]"
    by (simp add: merge_spec_def value_runs_def merge_run_def)
  finally have m: "merge_optional
      (extract_lines f [\<lparr>l_spans = Some [?A, ?B]\<rparr>, \<lparr>l_spans = Some [?C]\<rparr>]) '' '' =
      Inr [(''Chapter 1'', 10), (''Intro'', 11)]"
    by (simp only: ex)
  have lv: "tf_level f = 1"
    by (simp add: f_def)
  have "extract_toc [scenario_page a b c] f =
      Inr [ToCEntry 1 ''Chapter 1'' 1 10, ToCEntry 1 ''Intro'' 1 11]"
    by (simp add: extract_toc_def scenario_page_def dget_def m lv)
  with init show ?thesis by blast
qed

theorem scenario_extract_witness:
  "\<exists>p. literal_compile ''Bold'' = Some p \<and> p ''Bold-Font'' \<and>
   (\<exists>f. ToCFilter_init literal_compile scenario_filter = Inr f \<and>
      extract_toc [scenario_page bare_span bare_span bare_span] f =
        Inr [ToCEntry 1 ''Chapter 1'' 1 10, ToCEntry 1 ''Intro'' 1 11])"
proof -
  from literal_Bold obtain p where p: "literal_compile ''Bold'' = Some p" "p ''Bold-Font''"
    by blast
  from p scenario_extract [of literal_compile p bare_span bare_span bare_span]
  show ?thesis by blast
qed

lemma two_block_pages_have_text: "pages_have_text plain_filter two_block_pages"
  by (simp add: pages_have_text_def two_block_pages_def block_has_text_def span_has_text_def
      dget_def text_span_def)

lemma two_block_lines:
  "spec_lines plain_filter [\<lparr>l_spans = Some [text_span ''A'' 5]\<rparr>, \<lparr>l_spans = Some [text_span ''B'' 3]\<rparr>]
     = [Some (''A'', 5), Some (''B'', 3)]"
  "spec_lines plain_filter [\<lparr>l_spans = Some [text_span ''C'' 7]\<rparr>] = [Some (''C'', 7)]"
  by (simp_all add: spec_lines_def spec_spans_def plain_filter_admits dget_def text_span_def
      top_of_def)

lemma extract_no_bbox_run:
  "list_all (\<lambda>s. ToCFilter_admits f s \<and> s_bbox s = None \<and> s_text s \<noteq> None) spns \<Longrightarrow>
   extract_spans f spns = map with_text (map Some (map (\<lambda>s. (dget (s_text s) '''', 0)) spns))"
  by (induction spns) (auto simp: extract_spans_def with_text_def dget_def)

lemma Min_all_zero: "xs \<noteq> [] \<Longrightarrow> Min (set (map (\<lambda>s. 0 :: real) xs)) = 0"
proof -
  assume "xs \<noteq> []"
  then have "set (map (\<lambda>s. 0 :: real) xs) = {0}"
    by (cases xs) auto
  then show ?thesis by simp
qed

lemma merge_no_bbox_run:
  assumes "no_bbox_run f spns"
  shows "merge_optional (extract_spans f spns) sep =
           Inr [(join sep (map (\<lambda>s. dget (s_text s) '''') spns), 0)]"
proof -
  let ?ps = "map (\<lambda>s. (dget (s_text s) '''', 0 :: real)) spns"
  from assms have ne: "spns \<noteq> []"
    and all: "list_all (\<lambda>s. ToCFilter_admits f s \<and> s_bbox s = None \<and> s_text s \<noteq> None) spns"
    by (simp_all add: no_bbox_run_def)
  have ps: "?ps \<noteq> []" using ne by simp
  have "merge_optional (extract_spans f spns) sep = Inr (merge_spec sep (map Some ?ps))"
    by (simp only: extract_no_bbox_run [OF all] merge_optional_spec)
  also have "merge_spec sep (map Some ?ps) = [merge_run sep ?ps]"
    by (simp only: merge_spec_def value_runs_all_present [OF ps] list.map)
  also have "merge_run sep ?ps = (join sep (map (\<lambda>s. dget (s_text s) '''') spns), 0)"
    using Min_all_zero [OF ne] by (simp add: merge_run_def comp_def)
  finally show ?thesis .
qed

text \<open>
  Claim C10. An admitted span without \<^verbatim>\<open>bbox\<close> key is extracted with the vertical position 0:
  the extraction emits the pair of its text and 0, not a marker. A non-empty run of such
  spans (with texts) merges into one pair of position 0, and a page made of that run gives
  one entry of position 0.
\<close>

theorem missing_bbox_vpos_zero:
  "(ToCFilter_admits f spn \<and> s_bbox spn = None \<longrightarrow>
      extract_spans f [spn] = [Some (s_text spn, 0)]) \<and>
   (no_bbox_run f spns \<longrightarrow>
      merge_optional (extract_spans f spns) sep =
        Inr [(join sep (map (\<lambda>s. dget (s_text s) '''') spns), 0)] \<and>
      extract_toc [one_line_page spns] f =
        Inr [ToCEntry (tf_level f) (join '' '' (map (\<lambda>s. dget (s_text s) '''') spns)) 1 0])"
proof -
  have a: "extract_spans f [spn] = [Some (s_text spn, 0)]"
    if "ToCFilter_admits f spn" "s_bbox spn = None"
    using that by (simp add: extract_spans_def)
  have b: "merge_optional (extract_spans f spns) sep =
      Inr [(join sep (map (\<lambda>s. dget (s_text s) '''') spns), 0)]" if "no_bbox_run f spns"
    using that by (rule merge_no_bbox_run)
  have c: "extract_toc [one_line_page spns] f =
      Inr [ToCEntry (tf_level f) (join '' '' (map (\<lambda>s. dget (s_text s) '''') spns)) 1 0]"
    if "no_bbox_run f spns"
    using merge_no_bbox_run [OF that, of "'' ''"]
    by (simp add: extract_toc_def one_line_page_def dget_def extract_lines_def)
  from a b c show ?thesis by blast
qed

theorem missing_bbox_vpos_zero_witness:
  "ToCFilter_admits plain_filter (bare_span\<lparr>s_text := Some ''Part''\<rparr>) \<and>
   s_bbox (bare_span\<lparr>s_text := Some ''Part''\<rparr>) = None \<and>
   no_bbox_run plain_filter [bare_span\<lparr>s_text := Some ''Part''\<rparr>, bare_span\<lparr>s_text := Some ''One''\<rparr>] \<and>
   extract_spans plain_filter [bare_span\<lparr>s_text := Some ''Part''\<rparr>] = [Some (Some ''Part'', 0)] \<and>
   extract_toc [one_line_page [bare_span\<lparr>s_text := Some ''Part''\<rparr>, bare_span\<lparr>s_text := Some ''One''\<rparr>]]
     plain_filter = Inr [ToCEntry 1 ''Part One'' 1 0]"
proof -
  have r: "no_bbox_run plain_filter
      [bare_span\<lparr>s_text := Some ''Part''\<rparr>, bare_span\<lparr>s_text := Some ''One''\<rparr>]"
    by (simp add: no_bbox_run_def plain_filter_admits bare_span_def)
  have b: "s_bbox (bare_span\<lparr>s_text := Some ''Part''\<rparr>) = None"
    by (simp add: bare_span_def)
  from r b plain_filter_admits [of "bare_span\<lparr>s_text := Some ''Part''\<rparr>"]
    missing_bbox_vpos_zero [of plain_filter "bare_span\<lparr>s_text := Some ''Part''\<rparr>"
      "[bare_span\<lparr>s_text := Some ''Part''\<rparr>, bare_span\<lparr>s_text := Some ''One''\<rparr>]" "'' ''"]
  show ?thesis
    by (simp add: dget_def plain_filter_def)
qed

subsection \<open>A missing text\<close>

lemma those_None_iff: "those xs = None \<longleftrightarrow> None \<in> set xs"
  by (induction xs) (auto split: option.splits)

lemma groupby_concat: "concat (map snd (groupby xs key)) = xs"
  by (induction xs key rule: groupby.induct) simp_all

lemma groupby_covers:
  assumes "y \<in> set xs"
  shows "\<exists>k g. (k, g) \<in> set (groupby xs key) \<and> y \<in> set g"
proof -
  from assms have "y \<in> set (concat (map snd (groupby xs key)))"
    by (simp only: groupby_concat)
  then obtain p where "p \<in> set (groupby xs key)" and "y \<in> set (snd p)"
    by auto
  then have "(fst p, snd p) \<in> set (groupby xs key) \<and> y \<in> set (snd p)"
    by simp
  then show ?thesis by blast
qed

lemma str_join_None: "None \<in> set strs \<Longrightarrow> str_join sep strs = Inl TypeError"
  by (simp add: str_join_def those_None_iff [THEN iffD2])

lemma merge_group_missing_text:
  assumes "\<forall>y \<in> set g. y \<noteq> None" and "Some (None, v) \<in> set g"
  shows "merge_loop sep ((False, g) # gs) result = Inl TypeError"
proof -
  let ?ps = "map the g"
  have g: "g = map Some ?ps"
    using assms(1) by (rule all_present)
  have mem: "(None, v) \<in> set ?ps"
    using assms(2) by force
  then have ne: "?ps \<noteq> []" by auto
  have u: "unzip_group g = Inr (map fst ?ps, map snd ?ps)"
    using unzip_group_Some [OF ne] g by simp
  from mem have "fst (None :: string option, v) \<in> fst ` set ?ps"
    by (rule imageI)
  then have "None \<in> set (map fst ?ps)"
    by (simp only: fst_conv set_map)
  then have j: "str_join sep (map fst ?ps) = Inl TypeError"
    by (rule str_join_None)
  show ?thesis
    by (simp only: merge_loop.simps u j sum.case prod.case not_False_eq_True if_True)
qed

lemma str_join_cases: "str_join sep strs = Inl TypeError \<or> (\<exists>s. str_join sep strs = Inr s)"
  by (cases "those strs") (simp_all add: str_join_def)

lemma merge_loop_missing_text:
  assumes "\<And>k g. (k, g) \<in> set gs \<Longrightarrow> g \<noteq> [] \<and> (\<forall>y \<in> set g. (y = None) = k)"
    and "\<exists>k g v. (k, g) \<in> set gs \<and> Some (None, v) \<in> set g"
  shows "merge_loop sep gs result = Inl TypeError"
  using assms
proof (induction gs arbitrary: result)
  case Nil
  then show ?case by simp
next
  case (Cons kg gs)
  obtain k g where kg: "kg = (k, g)" by (cases kg)
  have g: "g \<noteq> [] \<and> (\<forall>y \<in> set g. (y = None) = k)"
    by (rule Cons.prems(1)) (simp add: kg)
  have rest: "g' \<noteq> [] \<and> (\<forall>y \<in> set g'. (y = None) = k')" if "(k', g') \<in> set gs" for k' g'
    by (rule Cons.prems(1)) (simp add: that)
  from Cons.prems(2) kg consider
    (here) v where "Some (None, v) \<in> set g"
    | (later) "\<exists>k g v. (k, g) \<in> set gs \<and> Some (None, v) \<in> set g"
    by auto
  then show ?case
  proof cases
    case here
    with g have k: "\<not> k" by auto
    with g have "\<forall>y \<in> set g. y \<noteq> None" by simp
    from merge_group_missing_text [OF this here] k kg show ?thesis by simp
  next
    case later
    note IH = Cons.IH [OF rest later]
    show ?thesis
    proof (cases k)
      case True
      then show ?thesis by (simp add: kg IH)
    next
      case False
      with g have "\<forall>y \<in> set g. y \<noteq> None" by simp
      then have m: "g = map Some (map the g)" by (rule all_present)
      from g have ne: "map the g \<noteq> []" by simp
      have u: "unzip_group g = Inr (map fst (map the g), map snd (map the g))"
        using unzip_group_Some [OF ne] m by simp
      have p: "py_min (map snd (map the g)) = Inr (Min (set (map snd (map the g))))"
        using ne by (simp add: py_min_Min)
      from str_join_cases [of sep "map fst (map the g)"] show ?thesis
      proof
        assume "str_join sep (map fst (map the g)) = Inl TypeError"
        then show ?thesis
          by (simp only: kg False merge_loop.simps u sum.case prod.case not_False_eq_True if_True)
      next
        assume "\<exists>s. str_join sep (map fst (map the g)) = Inr s"
        then obtain s where "str_join sep (map fst (map the g)) = Inr s" ..
        then show ?thesis
          by (simp only: kg False merge_loop.simps u p IH sum.case prod.case not_False_eq_True
              if_True)
      qed
    qed
  qed
qed

lemma merge_optional_missing_text:
  assumes "Some (None, v) \<in> set ls"
  shows "merge_optional ls sep = Inl TypeError"
proof -
  have inv: "g \<noteq> [] \<and> (\<forall>y \<in> set g. (y = None) = k)"
    if "(k, g) \<in> set (groupby ls (\<lambda>x. x = None))" for k g
    using that by (rule groupby_groups)
  from groupby_covers [OF assms, of "\<lambda>x. x = None"]
  have "\<exists>k g v. (k, g) \<in> set (groupby ls (\<lambda>x. x = None)) \<and> Some (None, v) \<in> set g"
    by blast
  with inv show ?thesis
    unfolding merge_optional_def by (rule merge_loop_missing_text)
qed

lemma extract_spans_missing:
  "\<not> list_all (span_has_text f) spns \<Longrightarrow> \<exists>v. Some (None, v) \<in> set (extract_spans f spns)"
  by (induction spns) (auto simp: extract_spans_def span_has_text_def split: if_splits)

lemma extract_lines_missing:
  "\<not> list_all (\<lambda>ln. list_all (span_has_text f) (dget (l_spans ln) [])) lines \<Longrightarrow>
   \<exists>v. Some (None, v) \<in> set (extract_lines f lines)"
proof (induction lines)
  case Nil
  then show ?case by simp
next
  case (Cons ln lines)
  show ?case
  proof (cases "list_all (span_has_text f) (dget (l_spans ln) [])")
    case True
    with Cons.prems have "\<not> list_all (\<lambda>ln. list_all (span_has_text f) (dget (l_spans ln) [])) lines"
      by simp
    from Cons.IH [OF this] show ?thesis
      by (auto simp: extract_lines_def)
  next
    case False
    from extract_spans_missing [OF this] show ?thesis
      by (auto simp: extract_lines_def)
  qed
qed

lemma merge_block_missing:
  assumes "\<not> block_has_text f blk"
  shows "merge_optional (extract_lines f (dget (b_lines blk) [])) '' '' = Inl TypeError"
proof -
  from assms have "\<exists>v. Some (None, v) \<in> set (extract_lines f (dget (b_lines blk) []))"
    unfolding block_has_text_def by (rule extract_lines_missing)
  then obtain v where "Some (None, v) \<in> set (extract_lines f (dget (b_lines blk) []))" ..
  then show ?thesis by (rule merge_optional_missing_text)
qed

lemma blocks_loop_missing:
  "\<not> list_all (block_has_text f) blks \<Longrightarrow> blocks_loop f blks entries = Inl TypeError"
proof (induction blks arbitrary: entries)
  case Nil
  then show ?case by simp
next
  case (Cons blk blks)
  show ?case
  proof (cases "block_has_text f blk")
    case True
    with Cons.prems have "\<not> list_all (block_has_text f) blks" by simp
    from Cons.IH [OF this] show ?thesis
      by (simp add: merge_block_spec [OF True])
  next
    case False
    then show ?thesis by (simp add: merge_block_missing)
  qed
qed

lemma pages_loop_missing:
  "\<not> pages_have_text f pgs \<Longrightarrow> pages_loop f pgs n result = Inl TypeError"
proof (induction pgs arbitrary: n result)
  case Nil
  then show ?case by (simp add: pages_have_text_def)
next
  case (Cons pg pgs)
  show ?case
  proof (cases "list_all (block_has_text f) (dget (p_blocks pg) [])")
    case True
    with Cons.prems have "\<not> pages_have_text f pgs"
      by (simp add: pages_have_text_def)
    from Cons.IH [OF this] show ?thesis
      by (simp add: blocks_loop_spec [OF True])
  next
    case False
    then show ?thesis by (simp add: blocks_loop_missing)
  qed
qed

lemma extract_toc_missing_text:
  "\<not> pages_have_text f pages \<Longrightarrow> extract_toc pages f = Inl TypeError"
  by (simp add: extract_toc_def pages_loop_missing)

text \<open>
  Claim C2 fails on the code. A span without \<^verbatim>\<open>text\<close> key that the filter admits is extracted
  with the text \<^verbatim>\<open>None\<close>, which \<^verbatim>\<open>str.join\<close> refuses: the merge of its block raises
  \<^verbatim>\<open>TypeError\<close>, and so does \<^verbatim>\<open>extract_toc\<close> on every page list that holds such a span, instead
  of returning an entry whose title takes the text as empty.
\<close>

theorem missing_text_raises:
  "(\<not> pages_have_text f pages \<longrightarrow> extract_toc pages f = Inl TypeError) \<and>
   (ToCFilter_admits f spn \<and> s_text spn = None \<longrightarrow>
      extract_spans f [spn] = [Some (None, top_of spn)] \<and>
      merge_optional (extract_spans f [spn]) sep = Inl TypeError \<and>
      extract_toc [one_line_page (before @ spn # after)] f = Inl TypeError)"
proof -
  have a: "extract_toc pages f = Inl TypeError" if "\<not> pages_have_text f pages"
    using that by (rule extract_toc_missing_text)
  have b: "extract_spans f [spn] = [Some (None, top_of spn)]"
    if "ToCFilter_admits f spn" "s_text spn = None"
    using that by (simp add: extract_spans_def top_of_def)
  have c: "merge_optional (extract_spans f [spn]) sep = Inl TypeError"
    if "ToCFilter_admits f spn" "s_text spn = None"
    using b [OF that] merge_optional_missing_text [of "top_of spn" "[Some (None, top_of spn)]" sep]
    by simp
  have d: "extract_toc [one_line_page (before @ spn # after)] f = Inl TypeError"
    if "ToCFilter_admits f spn" "s_text spn = None"
  proof (rule extract_toc_missing_text)
    show "\<not> pages_have_text f [one_line_page (before @ spn # after)]"
      using that
      by (simp add: pages_have_text_def one_line_page_def block_has_text_def dget_def
          span_has_text_def)
  qed
  from a b c d show ?thesis by blast
qed

theorem missing_text_raises_witness:
  "ToCFilter_init literal_compile \<lparr>fl_level = Some 1, fl_font = None, fl_bbox = None\<rparr> =
     Inr plain_filter \<and>
   s_text bare_span = None \<and>
   ToCFilter_admits plain_filter bare_span \<and>
   \<not> pages_have_text plain_filter [one_line_page [bare_span]] \<and>
   extract_spans plain_filter [bare_span] = [Some (None, 0)] \<and>
   merge_optional [Some (None, 0)] '' '' = Inl TypeError \<and>
   extract_toc [one_line_page [bare_span]] plain_filter = Inl TypeError"
proof -
  have t: "s_text bare_span = None" and bb: "top_of bare_span = 0"
    by (simp_all add: bare_span_def top_of_def)
  have n: "\<not> pages_have_text plain_filter [one_line_page [bare_span]]"
    by (simp add: pages_have_text_def one_line_page_def block_has_text_def dget_def
        span_has_text_def plain_filter_admits t)
  note w = missing_text_raises [of plain_filter "[one_line_page [bare_span]]" bare_span "'' ''"
      "[]" "[]", unfolded append_Nil]
  from w t plain_filter_admits [of bare_span]
  have e: "extract_spans plain_filter [bare_span] = [Some (None, top_of bare_span)]"
    and m: "merge_optional (extract_spans plain_filter [bare_span]) '' '' = Inl TypeError"
    and x: "extract_toc [one_line_page [bare_span]] plain_filter = Inl TypeError"
    by blast+
  from m have m': "merge_optional [Some (None, 0)] '' '' = Inl TypeError"
    by (simp only: e bb)
  from plain_filter_init t n plain_filter_admits [of bare_span] e bb m' x
  show ?thesis by simp
qed

subsection \<open>The order of the entries\<close>

lemma bare_page_lacks_text: "\<not> pages_have_text plain_filter (pages @ [one_line_page [bare_span]])"
  by (simp add: pages_have_text_def one_line_page_def block_has_text_def dget_def
      span_has_text_def plain_filter_admits bare_span_def)

text \<open>
  Claim C8 fails on the code. \<^verbatim>\<open>extract_toc\<close> of the empty page list is empty, and on pages
  whose admitted spans all carry a text it returns the entries of the pages in the order of
  the list, numbered from 1 by position; within a page the entries of its blocks in order,
  each block merged on its own (so that no title joins spans of two blocks), each merged
  pair as an entry of the filter's level, in the order of the runs in the block; appending
  a page appends its entries under the next page number. On every other page list, that
  is as soon as one admitted span has no \<^verbatim>\<open>text\<close> key, it returns no entries at all and raises
  \<^verbatim>\<open>TypeError\<close>, also for the pages before that span.
\<close>

theorem extract_toc_order:
  "extract_toc [] f = Inr [] \<and>
   extract_toc pages f =
     (if pages_have_text f pages
      then Inr (concat (map (\<lambda>(n, pg).
               map (\<lambda>(t, v). ToCEntry (tf_level f) t (int n) v)
                 (concat (map (\<lambda>blk. merge_spec '' '' (spec_lines f (dget (b_lines blk) [])))
                    (dget (p_blocks pg) []))))
             (enumerate 1 pages)))
      else Inl TypeError) \<and>
   extract_toc (pages @ [pg]) f =
     (if pages_have_text f (pages @ [pg])
      then Inr (spec_toc f pages @ spec_page f (int (length pages) + 1) pg)
      else Inl TypeError)"
proof -
  have a: "extract_toc [] f = Inr []"
    by (simp add: extract_toc_def)
  have s: "spec_toc f pages =
      concat (map (\<lambda>(n, pg).
               map (\<lambda>(t, v). ToCEntry (tf_level f) t (int n) v)
                 (concat (map (\<lambda>blk. merge_spec '' '' (spec_lines f (dget (b_lines blk) [])))
                    (dget (p_blocks pg) []))))
             (enumerate 1 pages))"
    by (simp add: spec_toc_def spec_page_def spec_block_def [abs_def])
  have b: "extract_toc ps f = (if pages_have_text f ps then Inr (spec_toc f ps) else Inl TypeError)"
    for ps
    by (simp add: extract_toc_spec extract_toc_missing_text)
  have c: "spec_toc f (pages @ [pg]) = spec_toc f pages @ spec_page f (int (length pages) + 1) pg"
    by (simp add: spec_toc_def enumerate_append_eq add.commute)
  from a b [of pages] b [of "pages @ [pg]"] show ?thesis
    by (simp only: s [symmetric] c [symmetric] simp_thms)
qed

theorem extract_toc_order_witness:
  "pages_have_text plain_filter two_block_pages \<and>
   extract_toc two_block_pages plain_filter =
     Inr [ToCEntry 1 ''A B'' 2 3, ToCEntry 1 ''C'' 2 7] \<and>
   \<not> pages_have_text plain_filter (two_block_pages @ [one_line_page [bare_span]]) \<and>
   extract_toc (two_block_pages @ [one_line_page [bare_span]]) plain_filter = Inl TypeError"
proof -
  have m: "merge_spec '' '' [Some (''A'', 5), Some (''B'', 3)] = [(''A B'', 3)]"
    "merge_spec '' '' [Some (''C'', 7)] = [(''C'', 7)]"
    by (simp_all add: merge_spec_def value_runs_def merge_run_def)
  have l: "tf_level plain_filter = 1"
    by (simp add: plain_filter_def)
  note w = extract_toc_order [of plain_filter two_block_pages "one_line_page [bare_span]"]
  from w two_block_pages_have_text
  have "extract_toc two_block_pages plain_filter =
        Inr (concat (map (\<lambda>(n, pg).
               map (\<lambda>(t, v). ToCEntry (tf_level plain_filter) t (int n) v)
                 (concat (map (\<lambda>blk. merge_spec '' '' (spec_lines plain_filter (dget (b_lines blk) [])))
                    (dget (p_blocks pg) []))))
             (enumerate 1 two_block_pages)))"
    by simp
  also have "\<dots> = Inr [ToCEntry 1 ''A B'' 2 3, ToCEntry 1 ''C'' 2 7]"
    by (simp add: two_block_pages_def dget_def two_block_lines m l)
  finally have p: "extract_toc two_block_pages plain_filter =
      Inr [ToCEntry 1 ''A B'' 2 3, ToCEntry 1 ''C'' 2 7]" .
  from w bare_page_lacks_text [of two_block_pages]
  have n: "extract_toc (two_block_pages @ [one_line_page [bare_span]]) plain_filter = Inl TypeError"
    by simp
  from p n two_block_pages_have_text bare_page_lacks_text [of two_block_pages]
  show ?thesis by simp
qed


end
